theory Spec2Isabelle
  imports
    Complex_Main
    "HOL-Library.AList"
    "HOL-Library.Char_ord"
    "HOL-Library.List_Lexorder"
begin

section \<open>The aggregation engine (data_aggregator.py)\<close>

subsection \<open>Datasets\<close>

text \<open>
  A pandas DataFrame is a table of named columns over a common index. A cell is a number,
  a text or null (NaN or None); a number is written as a rational, which every Python int
  and every finite float is.

  A column carries its dtype. A column of numeric dtype (int64, float64) holds numbers and
  nulls only; a column of object dtype holds any cells. \<open>pd.api.types.is_numeric_dtype\<close>
  reads the dtype, not the values.
\<close>

datatype cell = Number rat | Text string | Null

datatype numeric_dtype = Int64 | Float64

datatype column = NumCol numeric_dtype "rat option list" | ObjCol "cell list"

fun cell_of :: "rat option \<Rightarrow> cell" where
  "cell_of None = Null"
| "cell_of (Some r) = Number r"

fun values_of :: "column \<Rightarrow> cell list" where
  "values_of (NumCol d xs) = map cell_of xs"
| "values_of (ObjCol cs) = cs"


fun is_numeric_dtype :: "column \<Rightarrow> bool" where
  "is_numeric_dtype (NumCol d xs) = True"
| "is_numeric_dtype (ObjCol cs) = False"

record dataframe =
  nrows :: nat
  columns :: "(string \<times> column) list"

text \<open>The invariant of a DataFrame: distinct column names, every column as long as the index.\<close>

definition wf_dataframe :: "dataframe \<Rightarrow> bool" where
  "wf_dataframe df \<longleftrightarrow>
     distinct (map fst (columns df)) \<and>
     list_all (\<lambda>p. length (values_of (snd p)) = nrows df) (columns df)"

text \<open>\<open>dataframe[column]\<close>; \<open>column in dataframe.columns\<close> is \<open>get_column df column \<noteq> None\<close>.\<close>

definition get_column :: "dataframe \<Rightarrow> string \<Rightarrow> column option" where
  "get_column df c = map_of (columns df) c"

subsection \<open>Errors\<close>

text \<open>
  Every raise of the module is a \<open>ValueError\<close> told apart by its message; \<open>KeyError\<close> is
  what pandas raises on \<open>dataframe[c]\<close> for a column it does not have.
  \<^item> \<open>ColumnNotFound c\<close>: \<^verbatim>\<open>ValueError(f"Column '{c}' not found")\<close>
  \<^item> \<open>GroupColumnNotFound c\<close>: \<^verbatim>\<open>ValueError(f"Group column '{c}' not found")\<close>
  \<^item> \<open>ValueColumnNotFound c\<close>: \<^verbatim>\<open>ValueError(f"Value column '{c}' not found")\<close>
  \<^item> \<open>NotNumeric c\<close>: \<^verbatim>\<open>ValueError(f"Column '{c}' is not numeric")\<close>
  \<^item> \<open>EmptyFilterResult c v\<close>: \<^verbatim>\<open>ValueError(f"No rows found where {c} == {v}")\<close>
  \<^item> \<open>UnknownAggregation f\<close>: \<^verbatim>\<open>ValueError(f"Unknown aggregation function: {f}")\<close>
  \<^item> \<open>KeyError c\<close>: \<^verbatim>\<open>KeyError(c)\<close>, raised by pandas
\<close>

datatype error =
    ColumnNotFound string
  | GroupColumnNotFound string
  | ValueColumnNotFound string
  | NotNumeric string
  | EmptyFilterResult string cell
  | UnknownAggregation string
  | KeyError string



subsection \<open>Reductions of a pandas Series\<close>

text \<open>
  The numeric reductions are library code outside the module: \<open>sum\<close>, \<open>mean\<close>, \<open>min\<close>,
  \<open>max\<close> and \<open>median\<close> of a Series, and \<open>sum\<close> and \<open>mean\<close> of one group of a group-by. They
  compute in the arithmetic of the dtype (64-bit integers that wrap around, binary floating
  point that rounds), and the module turns each result into a Python float. What they
  return is not fixed here: the library is a parameter \<open>pd\<close> of every operation that
  calls one, each field standing for the reduction followed by \<open>float(...)\<close>, and \<open>'f\<close> for
  the Python floats.
\<close>

record 'f reductions =
  series_sum :: "column \<Rightarrow> 'f"
  series_mean :: "column \<Rightarrow> 'f"
  series_min :: "column \<Rightarrow> 'f"
  series_max :: "column \<Rightarrow> 'f"
  series_median :: "column \<Rightarrow> 'f"
  group_sum :: "column \<Rightarrow> 'f"
  group_mean :: "column \<Rightarrow> 'f"

text \<open>
  The counting reductions work on the cells alone. \<open>Series.count()\<close>: the number of
  non-null cells. \<open>Series.nunique()\<close> (default \<open>dropna=True\<close>): the number of distinct
  non-null values. \<open>Series.unique()\<close>: the distinct values in order of first appearance,
  null among them. \<open>remdups\<close> keeps the last occurrence of each element, so it runs on the
  reversed list.
\<close>

definition pd_count :: "cell list \<Rightarrow> nat" where
  "pd_count cs = length (filter (\<lambda>c. c \<noteq> Null) cs)"



subsection \<open>Single-column operations\<close>

definition sum_column :: "'f reductions \<Rightarrow> dataframe \<Rightarrow> string \<Rightarrow> error + 'f" where
  "sum_column pd df c =
     (case get_column df c of
        None \<Rightarrow> Inl (ColumnNotFound c)
      | Some col \<Rightarrow>
          if \<not> is_numeric_dtype col then Inl (NotNumeric c)
          else Inr (series_sum pd col))"

definition average_column :: "'f reductions \<Rightarrow> dataframe \<Rightarrow> string \<Rightarrow> error + 'f" where
  "average_column pd df c =
     (case get_column df c of
        None \<Rightarrow> Inl (ColumnNotFound c)
      | Some col \<Rightarrow>
          if \<not> is_numeric_dtype col then Inl (NotNumeric c)
          else Inr (series_mean pd col))"

definition min_column :: "'f reductions \<Rightarrow> dataframe \<Rightarrow> string \<Rightarrow> error + 'f" where
  "min_column pd df c =
     (case get_column df c of
        None \<Rightarrow> Inl (ColumnNotFound c)
      | Some col \<Rightarrow>
          if \<not> is_numeric_dtype col then Inl (NotNumeric c)
          else Inr (series_min pd col))"

definition max_column :: "'f reductions \<Rightarrow> dataframe \<Rightarrow> string \<Rightarrow> error + 'f" where
  "max_column pd df c =
     (case get_column df c of
        None \<Rightarrow> Inl (ColumnNotFound c)
      | Some col \<Rightarrow>
          if \<not> is_numeric_dtype col then Inl (NotNumeric c)
          else Inr (series_max pd col))"

definition median_column :: "'f reductions \<Rightarrow> dataframe \<Rightarrow> string \<Rightarrow> error + 'f" where
  "median_column pd df c =
     (case get_column df c of
        None \<Rightarrow> Inl (ColumnNotFound c)
      | Some col \<Rightarrow>
          if \<not> is_numeric_dtype col then Inl (NotNumeric c)
          else Inr (series_median pd col))"

definition count_column :: "dataframe \<Rightarrow> string \<Rightarrow> error + nat" where
  "count_column df c =
     (case get_column df c of
        None \<Rightarrow> Inl (ColumnNotFound c)
      | Some col \<Rightarrow> Inr (pd_count (values_of col)))"



definition count_rows :: "dataframe \<Rightarrow> nat" where
  "count_rows df = nrows df"

subsection \<open>Group-by operations\<close>

text \<open>
  A Python dict built by assigning the pairs in order: a key assigned twice keeps its
  place and takes the later value.
\<close>

definition py_dict :: "('k \<times> 'v) list \<Rightarrow> ('k \<times> 'v) list" where
  "py_dict kvs = fold (\<lambda>kv d. AList.update (fst kv) (snd kv) d) kvs []"

text \<open>
  \<open>groupby(g)\<close> with the defaults \<open>sort=True, dropna=True\<close>: one group for each distinct
  non-null value of the column, the numbers in ascending order before the texts in
  ascending order.
\<close>

fun numbers_of :: "cell list \<Rightarrow> rat list" where
  "numbers_of [] = []"
| "numbers_of (Number r # cs) = r # numbers_of cs"
| "numbers_of (c # cs) = numbers_of cs"

fun texts_of :: "cell list \<Rightarrow> string list" where
  "texts_of [] = []"
| "texts_of (Text s # cs) = s # texts_of cs"
| "texts_of (c # cs) = texts_of cs"

definition group_keys :: "cell list \<Rightarrow> cell list" where
  "group_keys cs =
     map Number (sort (remdups (numbers_of cs))) @ map Text (sort (remdups (texts_of cs)))"

text \<open>
  The entries of \<open>xs\<close> at the rows where the mask is true (boolean indexing); a column
  keeps its dtype.
\<close>

definition select :: "bool list \<Rightarrow> 'a list \<Rightarrow> 'a list" where
  "select keep xs = map snd (filter fst (zip keep xs))"

fun select_column :: "bool list \<Rightarrow> column \<Rightarrow> column" where
  "select_column keep (NumCol d xs) = NumCol d (select keep xs)"
| "select_column keep (ObjCol cs) = ObjCol (select keep cs)"



definition groupby_count ::
  "(cell \<Rightarrow> string) \<Rightarrow> dataframe \<Rightarrow> string \<Rightarrow> error + (string \<times> nat) list" where
  "groupby_count str df group_column =
     (case get_column df group_column of
        None \<Rightarrow> Inl (GroupColumnNotFound group_column)
      | Some g \<Rightarrow>
          Inr (py_dict (map (\<lambda>k. (str k, length (filter (\<lambda>c. c = k) (values_of g))))
                 (group_keys (values_of g)))))"

subsection \<open>Filter, then aggregate\<close>

text \<open>
  \<open>dataframe[filter_column] == filter_value\<close> compares cell by cell; a null cell equals
  nothing, and a number never equals a text. \<open>dataframe[mask]\<close> keeps the rows where the
  mask is true, every column with its dtype. \<open>DataFrame.empty\<close> holds when an axis has
  length 0.
\<close>

definition matches :: "cell \<Rightarrow> cell \<Rightarrow> bool" where
  "matches c v \<longleftrightarrow> c \<noteq> Null \<and> c = v"

definition mask_eq :: "cell list \<Rightarrow> cell \<Rightarrow> bool list" where
  "mask_eq cs v = map (\<lambda>c. matches c v) cs"

definition filter_rows :: "dataframe \<Rightarrow> bool list \<Rightarrow> dataframe" where
  "filter_rows df keep =
     \<lparr>nrows = length (filter id (take (nrows df) keep)),
      columns = map (\<lambda>p. (fst p, select_column keep (snd p))) (columns df)\<rparr>"

definition df_empty :: "dataframe \<Rightarrow> bool" where
  "df_empty df \<longleftrightarrow> nrows df = 0 \<or> columns df = []"

text \<open>
  The result of \<open>filter_and_aggregate\<close> is what the operation it hands over to returns: a
  float from the five numeric ones, an int from \<open>count_column\<close>.
\<close>

datatype 'f number = PyFloat 'f | PyInt nat

definition filter_and_aggregate ::
  "'f reductions \<Rightarrow> dataframe \<Rightarrow> string \<Rightarrow> cell \<Rightarrow> string \<Rightarrow> string \<Rightarrow> error + 'f number" where
  "filter_and_aggregate pd df filter_column filter_value agg_column agg_func =
     (case get_column df filter_column of
        None \<Rightarrow> Inl (KeyError filter_column)
      | Some col \<Rightarrow>
         (let filtered = filter_rows df (mask_eq (values_of col) filter_value)
          in if df_empty filtered then Inl (EmptyFilterResult filter_column filter_value)
             else if agg_func = ''sum'' then map_sum id PyFloat (sum_column pd filtered agg_column)
             else if agg_func = ''avg'' then map_sum id PyFloat (average_column pd filtered agg_column)
             else if agg_func = ''min'' then map_sum id PyFloat (min_column pd filtered agg_column)
             else if agg_func = ''max'' then map_sum id PyFloat (max_column pd filtered agg_column)
             else if agg_func = ''median'' then
               map_sum id PyFloat (median_column pd filtered agg_column)
             else if agg_func = ''count'' then map_sum id PyInt (count_column filtered agg_column)
             else Inl (UnknownAggregation agg_func)))"

section \<open>The telemetry collector (agent_telemetry.py)\<close>

text \<open>
  \<open>tool_input\<close> and \<open>tool_output\<close> are of any type in the source (\<open>Dict[str, Any]\<close>,
  \<open>Any\<close>): the record is polymorphic in both. Durations are exact rationals. The clock is
  outside the module, so every reading of it is an argument: the text of
  \<open>datetime.now().isoformat()\<close> for a timestamp, seconds for the session start.
\<close>

record ('i, 'o) ToolCall =
  timestamp :: string
  tool_name :: string
  tool_input :: 'i
  tool_output :: 'o
  execution_time_ms :: rat
  success :: bool
  error_message :: "string option"

record ('i, 'o) AgentTelemetry =
  max_history :: int
  tool_calls :: "('i, 'o) ToolCall list"
  session_start_time :: rat

definition init_telemetry :: "int \<Rightarrow> rat \<Rightarrow> ('i, 'o) AgentTelemetry" where
  "init_telemetry m now = \<lparr>max_history = m, tool_calls = [], session_start_time = now\<rparr>"

text \<open>
  \<open>log_tool_call\<close> appends the new record, then removes the first one (\<open>pop(0)\<close>) when the
  list is longer than \<open>max_history\<close>. The list is not empty at that point, so \<open>pop(0)\<close>
  cannot raise. The lines written to the logger are not part of the state.
\<close>

definition log_tool_call ::
  "string \<Rightarrow> string \<Rightarrow> 'i \<Rightarrow> 'o \<Rightarrow> rat \<Rightarrow> bool \<Rightarrow> string option \<Rightarrow>
   ('i, 'o) AgentTelemetry \<Rightarrow> ('i, 'o) AgentTelemetry" where
  "log_tool_call now name inp out ms ok err t =
     (let tool_call = \<lparr>timestamp = now, tool_name = name, tool_input = inp,
                        tool_output = out, execution_time_ms = ms, success = ok,
                        error_message = err\<rparr>;
          calls = tool_calls t @ [tool_call]
      in t\<lparr>tool_calls := (if int (length calls) > max_history t then tl calls else calls)\<rparr>)"

definition get_latest_call :: "('i, 'o) AgentTelemetry \<Rightarrow> ('i, 'o) ToolCall option" where
  "get_latest_call t = (if tool_calls t = [] then None else Some (last (tool_calls t)))"

text \<open>
  The Python slice \<open>xs[start:]\<close>: a negative start counts from the end, and a start
  outside the list is clipped to it.
\<close>

definition slice_from :: "'a list \<Rightarrow> int \<Rightarrow> 'a list" where
  "slice_from xs start =
     (let l = int (length xs)
      in drop (nat (if start < 0 then max (l + start) 0 else min start l)) xs)"

fun get_call_history ::
  "('i, 'o) AgentTelemetry \<Rightarrow> int option \<Rightarrow> ('i, 'o) ToolCall list" where
  "get_call_history t None = rev (tool_calls t)"
| "get_call_history t (Some n) = rev (slice_from (tool_calls t) (- n))"

text \<open>\<open>counts[name] = counts.get(name, 0) + 1\<close>, for every call in order.\<close>

definition count_call :: "('i, 'o) ToolCall \<Rightarrow> (string \<times> nat) list \<Rightarrow> (string \<times> nat) list" where
  "count_call call counts =
     AList.update (tool_name call)
       ((case map_of counts (tool_name call) of None \<Rightarrow> 0 | Some n \<Rightarrow> n) + 1) counts"

definition get_tool_call_counts :: "('i, 'o) AgentTelemetry \<Rightarrow> (string \<times> nat) list" where
  "get_tool_call_counts t = fold count_call (tool_calls t) []"

text \<open>
  \<open>tool_stats[name]\<close> is the pair of the entries \<open>"total"\<close> and \<open>"success"\<close>. A name not
  yet in \<open>tool_stats\<close> starts at \<open>(0, 0)\<close>; the total always grows by one, the successes
  when the call succeeded.
\<close>

definition stat_call ::
  "('i, 'o) ToolCall \<Rightarrow> (string \<times> nat \<times> nat) list \<Rightarrow> (string \<times> nat \<times> nat) list" where
  "stat_call call tool_stats =
     (let stats = (case map_of tool_stats (tool_name call) of None \<Rightarrow> (0, 0) | Some st \<Rightarrow> st)
      in AList.update (tool_name call)
           (fst stats + 1, if success call then snd stats + 1 else snd stats) tool_stats)"

definition rate_of :: "nat \<times> nat \<Rightarrow> rat" where
  "rate_of stats = (if fst stats > 0 then of_nat (snd stats) / of_nat (fst stats) else 0)"

definition get_tool_success_rate :: "('i, 'o) AgentTelemetry \<Rightarrow> (string \<times> rat) list" where
  "get_tool_success_rate t =
     py_dict (map (\<lambda>p. (fst p, rate_of (snd p))) (fold stat_call (tool_calls t) []))"

definition time_call :: "('i, 'o) ToolCall \<Rightarrow> (string \<times> rat list) list \<Rightarrow> (string \<times> rat list) list" where
  "time_call call avg_times =
     AList.update (tool_name call)
       ((case map_of avg_times (tool_name call) of None \<Rightarrow> [] | Some ts \<Rightarrow> ts)
          @ [execution_time_ms call]) avg_times"

text \<open>Every list of times holds at least one entry, so the division cannot fail.\<close>

definition get_average_execution_time :: "('i, 'o) AgentTelemetry \<Rightarrow> (string \<times> rat) list" where
  "get_average_execution_time t =
     py_dict (map (\<lambda>p. (fst p, sum_list (snd p) / of_nat (length (snd p))))
                (fold time_call (tool_calls t) []))"

record summary =
  session_duration_seconds :: rat
  total_tool_calls :: nat
  tool_call_counts :: "(string \<times> nat) list"
  tool_success_rates :: "(string \<times> rat) list"
  average_execution_times_ms :: "(string \<times> rat) list"

definition get_summary :: "rat \<Rightarrow> ('i, 'o) AgentTelemetry \<Rightarrow> summary" where
  "get_summary now t =
     \<lparr>session_duration_seconds = now - session_start_time t,
      total_tool_calls = length (tool_calls t),
      tool_call_counts = get_tool_call_counts t,
      tool_success_rates = get_tool_success_rate t,
      average_execution_times_ms = get_average_execution_time t\<rparr>"

definition clear :: "('i, 'o) AgentTelemetry \<Rightarrow> ('i, 'o) AgentTelemetry" where
  "clear t = t\<lparr>tool_calls := []\<rparr>"

text \<open>
  The calls a client makes on a collector. A query returns its result and leaves the
  collector as it is; \<open>log_tool_call\<close> and \<open>clear\<close> return nothing and change it.
\<close>

datatype ('i, 'o) request =
    Log string string 'i 'o rat bool "string option"
  | Clear
  | Latest
  | History "int option"
  | Counts
  | SuccessRates
  | AverageTimes
  | Summary rat

datatype ('i, 'o) reply =
    Nothing
  | RCall "('i, 'o) ToolCall option"
  | RCalls "('i, 'o) ToolCall list"
  | RCounts "(string \<times> nat) list"
  | RRates "(string \<times> rat) list"
  | RSummary summary

fun serve ::
  "('i, 'o) request \<Rightarrow> ('i, 'o) AgentTelemetry \<Rightarrow> ('i, 'o) reply \<times> ('i, 'o) AgentTelemetry" where
  "serve (Log now name inp out ms ok err) t = (Nothing, log_tool_call now name inp out ms ok err t)"
| "serve Clear t = (Nothing, clear t)"
| "serve Latest t = (RCall (get_latest_call t), t)"
| "serve (History n) t = (RCalls (get_call_history t n), t)"
| "serve Counts t = (RCounts (get_tool_call_counts t), t)"
| "serve SuccessRates t = (RRates (get_tool_success_rate t), t)"
| "serve AverageTimes t = (RRates (get_average_execution_time t), t)"
| "serve (Summary now) t = (RSummary (get_summary now t), t)"

text \<open>The collector after a sequence of calls.\<close>

definition run :: "('i, 'o) request list \<Rightarrow> ('i, 'o) AgentTelemetry \<Rightarrow> ('i, 'o) AgentTelemetry" where
  "run rs t = fold (\<lambda>r s. snd (serve r s)) rs t"

fun is_Log :: "('i, 'o) request \<Rightarrow> bool" where
  "is_Log (Log now name inp out ms ok err) = True"
| "is_Log r = False"

text \<open>The records a sequence of calls asks the collector to keep, oldest first.\<close>

fun logged :: "('i, 'o) request list \<Rightarrow> ('i, 'o) ToolCall list" where
  "logged [] = []"
| "logged (Log now name inp out ms ok err # rs) =
     \<lparr>timestamp = now, tool_name = name, tool_input = inp, tool_output = out,
      execution_time_ms = ms, success = ok, error_message = err\<rparr> # logged rs"
| "logged (r # rs) = logged rs"

text \<open>The calls made after the last \<open>clear\<close>: all of them when there was none.\<close>

definition since_clear :: "('i, 'o) request list \<Rightarrow> ('i, 'o) request list" where
  "since_clear rs = rev (takeWhile (\<lambda>r. r \<noteq> Clear) (rev rs))"

section \<open>The instrumentation adapter (instrument_tool in app_hybrid.py)\<close>




section \<open>Example data\<close>

text \<open>
  The dataset of the fixture in test_aggregator.py; the dataset of the spec's group-by
  example with one more row whose department is null; a dataset whose column of object
  dtype holds the int 1 and the text "1"; a dataset of 21 rows with 21 different ids and
  with scores that are null in one row and take 20 different values in the others; the
  five calls of \<open>test_max_history_enforced\<close> in test_telemetry.py, and seven calls with
  queries and a \<open>clear\<close> among them.
\<close>

definition sample_df :: dataframe where
  "sample_df =
     \<lparr>nrows = 5,
      columns =
        [(''Name'', ObjCol [Text ''Alice'', Text ''Bob'', Text ''Charlie'', Text ''Diana'', Text ''Eve'']),
         (''Department'', ObjCol [Text ''Sales'', Text ''IT'', Text ''Sales'', Text ''HR'', Text ''IT'']),
         (''Salary'', NumCol Int64 [Some 50000, Some 80000, Some 55000, Some 60000, Some 85000]),
         (''Age'', NumCol Int64 [Some 25, Some 30, Some 28, Some 35, Some 32]),
         (''Bonus'', NumCol Int64 [Some 5000, Some 10000, Some 5500, Some 6000, Some 8500])]\<rparr>"

definition dept_df :: dataframe where
  "dept_df =
     \<lparr>nrows = 4,
      columns =
        [(''Dept'', ObjCol [Text ''IT'', Text ''IT'', Text ''HR'', Null]),
         (''Salary'', NumCol Int64 [Some 80000, Some 85000, Some 60000, Some 70000])]\<rparr>"

definition codes_df :: dataframe where
  "codes_df = \<lparr>nrows = 2, columns = [(''Code'', ObjCol [Number 1, Text ''1''])]\<rparr>"


text \<open>
  Python's \<open>str\<close> on the cells of the examples: a text is itself, an int is its decimal
  digits (the numbers of the examples are ints), \<open>None\<close> is its name.
\<close>

fun digits :: "nat \<Rightarrow> string" where
  "digits n =
     (if n < 10 then [''0123456789'' ! n]
      else digits (n div 10) @ [''0123456789'' ! (n mod 10)])"

declare digits.simps [simp del]

fun str_cell :: "cell \<Rightarrow> string" where
  "str_cell (Text s) = s"
| "str_cell (Number r) = (if r < 0 then ''-'' else []) @ digits (nat \<lfloor>\<bar>r\<bar>\<rfloor>)"
| "str_cell Null = ''None''"

text \<open>
  For the examples the reductions of the library are left unevaluated: a result is the
  name of the reduction together with the column it is applied to.
\<close>

datatype reduction =
    SeriesSum column
  | SeriesMean column
  | SeriesMin column
  | SeriesMax column
  | SeriesMedian column
  | GroupSum column
  | GroupMean column

definition unevaluated :: "reduction reductions" where
  "unevaluated =
     \<lparr>series_sum = SeriesSum, series_mean = SeriesMean, series_min = SeriesMin,
      series_max = SeriesMax, series_median = SeriesMedian,
      group_sum = GroupSum, group_mean = GroupMean\<rparr>"

definition five_calls :: "(unit, nat) request list" where
  "five_calls =
     [Log ''t'' ''tool_0'' () 0 1 True None,
      Log ''t'' ''tool_1'' () 1 1 True None,
      Log ''t'' ''tool_2'' () 2 1 True None,
      Log ''t'' ''tool_3'' () 3 1 True None,
      Log ''t'' ''tool_4'' () 4 1 True None]"

definition seven_calls :: "(unit, nat) request list" where
  "seven_calls =
     [Log ''t'' ''tool_0'' () 0 1 True None,
      Clear,
      Log ''t'' ''tool_1'' () 1 1 True None,
      Latest,
      Log ''t'' ''tool_2'' () 2 1 True None,
      Counts,
      Log ''t'' ''tool_3'' () 3 1 True None]"

section \<open>Association lists\<close>

lemma map_of_fold_update:
  "map_of (fold (\<lambda>kv d. AList.update (fst kv) (snd kv) d) kvs d) = map_of d ++ map_of (rev kvs)"
proof (induction kvs arbitrary: d)
  case Nil
  then show ?case by simp
next
  case (Cons kv kvs)
  show ?case by (cases kv) (simp add: Cons.IH update_conv' map_add_upd_left fun_eq_iff map_add_def split: option.splits)
qed

lemma map_of_rev_distinct: "distinct (map fst kvs) \<Longrightarrow> map_of (rev kvs) = map_of kvs"
  by (simp add: map_of_inject_set rev_map [symmetric])

lemma map_of_py_dict: "distinct (map fst kvs) \<Longrightarrow> map_of (py_dict kvs) = map_of kvs"
  unfolding py_dict_def by (simp add: map_of_fold_update map_of_rev_distinct)

lemma map_of_map_snd: "map_of (map (\<lambda>p. (fst p, f (snd p))) kvs) k = map_option f (map_of kvs k)"
  by (induction kvs) auto

section \<open>Properties of the aggregation engine\<close>

subsection \<open>Filtering\<close>


lemma no_match_empty:
  assumes "\<not> list_ex (\<lambda>c. matches c v) cs"
  shows "df_empty (filter_rows df (mask_eq cs v))"
proof -
  have "filter id (map (\<lambda>c. matches c v) cs) = []"
    using assms by (simp add: filter_empty_conv list_ex_iff)
  then have "filter id (take n (map (\<lambda>c. matches c v) cs)) = []" for n
    by (metis append_take_drop_id filter_append append_is_Nil_conv)
  then show ?thesis by (simp add: df_empty_def filter_rows_def mask_eq_def)
qed

lemma column_length:
  assumes "wf_dataframe df" "get_column df c = Some col"
  shows "length (values_of col) = nrows df"
proof -
  have "(c, col) \<in> set (columns df)"
    using assms(2) by (simp add: get_column_def map_of_SomeD)
  then show ?thesis using assms(1) by (auto simp: wf_dataframe_def list_all_iff)
qed

lemma match_not_empty:
  assumes "wf_dataframe df" "get_column df c = Some col" "list_ex (\<lambda>c. matches c v) (values_of col)"
  shows "\<not> df_empty (filter_rows df (mask_eq (values_of col) v))"
proof -
  have "columns df \<noteq> []" using assms(2) by (auto simp: get_column_def)
  moreover have "filter (\<lambda>c. matches c v) (values_of col) \<noteq> []"
    using assms(3) by (auto simp: filter_empty_conv list_ex_iff)
  ultimately show ?thesis
    using column_length [OF assms(1,2)]
    by (simp add: df_empty_def filter_rows_def mask_eq_def filter_map comp_def)
qed

lemma filter_no_match:
  assumes "get_column df fc = Some col" "\<not> list_ex (\<lambda>c. matches c v) (values_of col)"
  shows "filter_and_aggregate pd df fc v ac af = Inl (EmptyFilterResult fc v)"
  using assms no_match_empty [OF assms(2), of df]
  by (simp add: filter_and_aggregate_def Let_def)

lemma filter_match:
  assumes "wf_dataframe df" "get_column df fc = Some col"
    "list_ex (\<lambda>c. matches c v) (values_of col)"
  shows "filter_and_aggregate pd df fc v ac af =
     (let filtered = filter_rows df (mask_eq (values_of col) v)
      in if af = ''sum'' then map_sum id PyFloat (sum_column pd filtered ac)
         else if af = ''avg'' then map_sum id PyFloat (average_column pd filtered ac)
         else if af = ''min'' then map_sum id PyFloat (min_column pd filtered ac)
         else if af = ''max'' then map_sum id PyFloat (max_column pd filtered ac)
         else if af = ''median'' then map_sum id PyFloat (median_column pd filtered ac)
         else if af = ''count'' then map_sum id PyInt (count_column filtered ac)
         else Inl (UnknownAggregation af))"
  using assms(2) match_not_empty [OF assms]
  by (simp add: filter_and_aggregate_def Let_def)

lemma sample_wf: "wf_dataframe sample_df"
  by (simp add: wf_dataframe_def sample_df_def)

text \<open>
  C5. When the filter column exists and no row matches the value, \<open>filter_and_aggregate\<close>
  fails with the empty-filter error, whatever the aggregation column and keyword, and so
  returns no number. When a row of a well-formed dataset matches and the keyword is none of
  the six, it fails with the unknown-aggregation error.
\<close>

theorem filter_empty_or_unknown:
  assumes "get_column df fc = Some col"
  shows "(\<not> list_ex (\<lambda>c. matches c v) (values_of col) \<longrightarrow>
            filter_and_aggregate pd df fc v ac af = Inl (EmptyFilterResult fc v) \<and>
            (\<forall>r. filter_and_aggregate pd df fc v ac af \<noteq> Inr r)) \<and>
         (wf_dataframe df \<and> list_ex (\<lambda>c. matches c v) (values_of col) \<and>
          af \<notin> {''sum'', ''avg'', ''min'', ''max'', ''median'', ''count''} \<longrightarrow>
            filter_and_aggregate pd df fc v ac af = Inl (UnknownAggregation af))"
  using filter_no_match [OF assms, where pd = pd and ac = ac and af = af]
    filter_match [where df = df and fc = fc and col = col and v = v and pd = pd and ac = ac and af = af]
    assms
  by (auto simp: Let_def)

theorem filter_empty_or_unknown_witness:
  "get_column sample_df ''Department'' =
     Some (ObjCol [Text ''Sales'', Text ''IT'', Text ''Sales'', Text ''HR'', Text ''IT'']) \<and>
   filter_and_aggregate unevaluated sample_df ''Department'' (Text ''NonExistent'') ''Salary'' ''sum'' =
     Inl (EmptyFilterResult ''Department'' (Text ''NonExistent'')) \<and>
   filter_and_aggregate unevaluated sample_df ''Department'' (Text ''Sales'') ''Salary'' ''invalid'' =
     Inl (UnknownAggregation ''invalid'')"
proof -
  have g: "get_column sample_df ''Department'' =
     Some (ObjCol [Text ''Sales'', Text ''IT'', Text ''Sales'', Text ''HR'', Text ''IT''])"
    by (simp add: get_column_def sample_df_def)
  show ?thesis
    using g sample_wf
      filter_empty_or_unknown [OF g, where v = "Text ''NonExistent''" and pd = unevaluated
        and ac = "''Salary''" and af = "''sum''"]
      filter_empty_or_unknown [OF g, where v = "Text ''Sales''" and pd = unevaluated
        and ac = "''Salary''" and af = "''invalid''"]
    by (simp add: matches_def)
qed

text \<open>
  C9. The empty-filter check comes first: when no row matches, the error is the
  empty-filter one for every aggregation column and every keyword, so for an absent or
  non-numeric column and for an unsupported keyword too, and none of their errors is seen.
\<close>

theorem empty_filter_first:
  assumes "get_column df fc = Some col" "\<not> list_ex (\<lambda>c. matches c v) (values_of col)"
  shows "filter_and_aggregate pd df fc v ac af = Inl (EmptyFilterResult fc v) \<and>
         filter_and_aggregate pd df fc v ac af \<noteq> Inl (UnknownAggregation af) \<and>
         filter_and_aggregate pd df fc v ac af \<noteq> Inl (ColumnNotFound ac) \<and>
         filter_and_aggregate pd df fc v ac af \<noteq> Inl (NotNumeric ac)"
  using filter_no_match [OF assms, where pd = pd and ac = ac and af = af] by simp

theorem empty_filter_first_witness:
  "filter_and_aggregate unevaluated sample_df ''Department'' (Text ''NonExistent'') ''Missing'' ''invalid'' =
     Inl (EmptyFilterResult ''Department'' (Text ''NonExistent'')) \<and>
   filter_and_aggregate unevaluated sample_df ''Department'' (Text ''NonExistent'') ''Name'' ''sum'' =
     Inl (EmptyFilterResult ''Department'' (Text ''NonExistent''))"
proof -
  have g: "get_column sample_df ''Department'' =
     Some (ObjCol [Text ''Sales'', Text ''IT'', Text ''Sales'', Text ''HR'', Text ''IT''])"
    by (simp add: get_column_def sample_df_def)
  have n: "\<not> list_ex (\<lambda>c. matches c (Text ''NonExistent''))
     (values_of (ObjCol [Text ''Sales'', Text ''IT'', Text ''Sales'', Text ''HR'', Text ''IT'']))"
    by (simp add: matches_def)
  show ?thesis
    using
      empty_filter_first [OF g n, where pd = unevaluated and ac = "''Missing''" and af = "''invalid''"]
      empty_filter_first [OF g n, where pd = unevaluated and ac = "''Name''" and af = "''sum''"]
    by simp
qed

subsection \<open>Validation of columns\<close>














text \<open>
  The filter column is not checked by the module: the lookup of pandas fails on an absent
  one.
\<close>

lemma filter_column_absent:
  "get_column df fc = None \<Longrightarrow> filter_and_aggregate pd df fc v ac af = Inl (KeyError fc)"
  by (simp add: filter_and_aggregate_def)


subsection \<open>Group sizes\<close>

lemma update_fresh: "k \<notin> fst ` set al \<Longrightarrow> AList.update k v al = al @ [(k, v)]"
  by (induction al) auto

lemma fold_update_fresh:
  "distinct (map fst kvs) \<Longrightarrow> fst ` set kvs \<inter> fst ` set acc = {} \<Longrightarrow>
   fold (\<lambda>kv d. AList.update (fst kv) (snd kv) d) kvs acc = acc @ kvs"
proof (induction kvs arbitrary: acc)
  case Nil
  then show ?case by simp
next
  case (Cons kv kvs)
  have f: "fst kv \<notin> fst ` set acc" using Cons.prems(2) by auto
  have "fst ` set kvs \<inter> fst ` set (acc @ [kv]) = {}"
    using Cons.prems by auto
  then have "fold (\<lambda>kv d. AList.update (fst kv) (snd kv) d) kvs (acc @ [kv]) = (acc @ [kv]) @ kvs"
    using Cons.prems(1) by (intro Cons.IH) simp_all
  then show ?case using update_fresh [OF f, of "snd kv"] by simp
qed

lemma py_dict_distinct: "distinct (map fst kvs) \<Longrightarrow> py_dict kvs = kvs"
  unfolding py_dict_def using fold_update_fresh [of kvs "[]"] by simp

lemma set_numbers_of: "set (numbers_of cs) = {r. Number r \<in> set cs}"
  by (induction cs rule: numbers_of.induct) auto

lemma set_texts_of: "set (texts_of cs) = {s. Text s \<in> set cs}"
  by (induction cs rule: texts_of.induct) auto

lemma set_group_keys: "set (group_keys cs) = set cs - {Null}"
proof -
  have "c \<in> set (group_keys cs) \<longleftrightarrow> c \<in> set cs \<and> c \<noteq> Null" for c
    by (cases c) (auto simp: group_keys_def set_numbers_of set_texts_of)
  then show ?thesis by blast
qed

lemma distinct_group_keys: "distinct (group_keys cs)"
  by (auto simp: group_keys_def distinct_map inj_on_def)

lemma count_by_key:
  "distinct ks \<Longrightarrow>
   sum_list (map (\<lambda>k. length (filter (\<lambda>c. c = k) cs)) ks) = length (filter (\<lambda>c. c \<in> set ks) cs)"
proof (induction ks)
  case Nil
  then show ?case by simp
next
  case (Cons k ks)
  have "length (filter (\<lambda>c. c \<in> set (k # ks)) cs) =
        length (filter (\<lambda>c. c = k) cs) + length (filter (\<lambda>c. c \<in> set ks) cs)"
    using Cons.prems by (induction cs) auto
  then show ?case using Cons by simp
qed

lemma group_sizes:
  "sum_list (map (\<lambda>k. length (filter (\<lambda>c. c = k) cs)) (group_keys cs)) = pd_count cs"
proof -
  have "filter (\<lambda>c. c \<in> set (group_keys cs)) cs = filter (\<lambda>c. c \<noteq> Null) cs"
    by (intro filter_cong) (simp_all add: set_group_keys)
  then show ?thesis
    using count_by_key [OF distinct_group_keys, of cs cs] by (simp add: pd_count_def)
qed

text \<open>
  C3. When the non-null values of the grouping column have different texts under \<open>str\<close>,
  \<open>groupby_count\<close> has one entry for each of them, with the number of rows that hold it.
  The sizes add up to the number of rows whose key is not null, since pandas leaves the
  rows with a null key out of every group, and so to \<open>count_rows\<close> when the column of a
  well-formed dataset has no null.
\<close>

theorem groupby_count_total:
  assumes "get_column df g = Some col" "inj_on str (set (values_of col) - {Null})"
  shows "groupby_count str df g =
           Inr (map (\<lambda>k. (str k, length (filter (\<lambda>c. c = k) (values_of col))))
                  (group_keys (values_of col))) \<and>
         map_sum id (\<lambda>d. sum_list (map snd d)) (groupby_count str df g) =
           Inr (pd_count (values_of col)) \<and>
         (wf_dataframe df \<and> Null \<notin> set (values_of col) \<longrightarrow>
            map_sum id (\<lambda>d. sum_list (map snd d)) (groupby_count str df g) =
              Inr (count_rows df))"
proof -
  let ?cs = "values_of col"
  let ?kvs = "map (\<lambda>k. (str k, length (filter (\<lambda>c. c = k) ?cs))) (group_keys ?cs)"
  have "distinct (map str (group_keys ?cs))"
    using assms(2) distinct_group_keys [of ?cs] by (simp add: distinct_map set_group_keys)
  then have "distinct (map fst ?kvs)" by (simp add: comp_def)
  then have a: "groupby_count str df g = Inr ?kvs"
    using assms(1) by (simp add: groupby_count_def py_dict_distinct)
  have "map snd ?kvs = map (\<lambda>k. length (filter (\<lambda>c. c = k) ?cs)) (group_keys ?cs)"
    by (simp add: comp_def)
  then have b: "map_sum id (\<lambda>d. sum_list (map snd d)) (groupby_count str df g) =
      Inr (pd_count ?cs)"
    using a group_sizes [of ?cs] by (simp add: comp_def)
  have c: "map_sum id (\<lambda>d. sum_list (map snd d)) (groupby_count str df g) =
      Inr (count_rows df)"
    if "wf_dataframe df" "Null \<notin> set ?cs"
  proof -
    have "filter (\<lambda>c. c \<noteq> Null) ?cs = ?cs" using that(2) by (auto simp: filter_id_conv)
    then have "pd_count ?cs = length ?cs" by (simp add: pd_count_def)
    then show ?thesis
      using b column_length [OF that(1) assms(1)] by (simp add: count_rows_def)
  qed
  show ?thesis using a b c by blast
qed

theorem groupby_count_total_witness:
  "get_column dept_df ''Dept'' = Some (ObjCol [Text ''IT'', Text ''IT'', Text ''HR'', Null]) \<and>
   inj_on str_cell (set (values_of (ObjCol [Text ''IT'', Text ''IT'', Text ''HR'', Null])) - {Null}) \<and>
   groupby_count str_cell dept_df ''Dept'' = Inr [(''HR'', 1), (''IT'', 2)] \<and>
   count_rows dept_df = 4 \<and>
   get_column sample_df ''Department'' =
     Some (ObjCol [Text ''Sales'', Text ''IT'', Text ''Sales'', Text ''HR'', Text ''IT'']) \<and>
   wf_dataframe sample_df \<and>
   Null \<notin> set (values_of
     (ObjCol [Text ''Sales'', Text ''IT'', Text ''Sales'', Text ''HR'', Text ''IT''])) \<and>
   groupby_count str_cell sample_df ''Department'' = Inr [(''HR'', 1), (''IT'', 2), (''Sales'', 2)] \<and>
   map_sum id (\<lambda>d. sum_list (map snd d)) (groupby_count str_cell sample_df ''Department'') =
     Inr (count_rows sample_df)"
proof -
  let ?dept = "ObjCol [Text ''IT'', Text ''IT'', Text ''HR'', Null]"
  let ?dep = "ObjCol [Text ''Sales'', Text ''IT'', Text ''Sales'', Text ''HR'', Text ''IT'']"
  have g: "get_column dept_df ''Dept'' = Some ?dept"
    by (simp add: get_column_def dept_df_def)
  have i: "inj_on str_cell (set (values_of ?dept) - {Null})"
    by (auto simp: inj_on_def)
  have k: "map (\<lambda>k. (str_cell k, length (filter (\<lambda>c. c = k) (values_of ?dept))))
             (group_keys (values_of ?dept)) = [(''HR'', 1), (''IT'', 2)]"
    by (simp add: group_keys_def)
  have r: "count_rows dept_df = 4" by (simp add: count_rows_def dept_df_def)
  have g': "get_column sample_df ''Department'' = Some ?dep"
    by (simp add: get_column_def sample_df_def)
  have i': "inj_on str_cell (set (values_of ?dep) - {Null})"
    by (auto simp: inj_on_def)
  have n': "Null \<notin> set (values_of ?dep)" by simp
  have k': "map (\<lambda>k. (str_cell k, length (filter (\<lambda>c. c = k) (values_of ?dep))))
             (group_keys (values_of ?dep)) = [(''HR'', 1), (''IT'', 2), (''Sales'', 2)]"
    by (simp add: group_keys_def)
  have "groupby_count str_cell dept_df ''Dept'' = Inr [(''HR'', 1), (''IT'', 2)]"
    using groupby_count_total [OF g i] unfolding k by blast
  moreover have "groupby_count str_cell sample_df ''Department'' =
       Inr [(''HR'', 1), (''IT'', 2), (''Sales'', 2)] \<and>
     map_sum id (\<lambda>d. sum_list (map snd d)) (groupby_count str_cell sample_df ''Department'') =
       Inr (count_rows sample_df)"
    using groupby_count_total [OF g' i'] sample_wf n' unfolding k' by blast
  ultimately show ?thesis using g i r g' sample_wf n' by blast
qed

text \<open>
  The result is keyed by \<open>str(k)\<close>. The int 1 and the text "1" are two groups of one row
  each and one key of the dict, where the later size replaces the earlier: the sizes add
  up to 1 in a dataset of 2 rows, none with a null key.
\<close>

theorem groupby_count_total_counterexample:
  "wf_dataframe codes_df \<and>
   count_column codes_df ''Code'' = Inr 2 \<and>
   count_rows codes_df = 2 \<and>
   groupby_count str_cell codes_df ''Code'' = Inr [(''1'', 1)] \<and>
   map_sum id (\<lambda>d. sum_list (map snd d)) (groupby_count str_cell codes_df ''Code'') = Inr 1"
  by (simp add: wf_dataframe_def codes_df_def count_column_def get_column_def pd_count_def
      count_rows_def groupby_count_def group_keys_def py_dict_def digits.simps [of "Suc 0"])

subsection \<open>Distinct values\<close>











section \<open>Properties of the telemetry collector\<close>

subsection \<open>Bounded history\<close>

lemma run_Nil: "run [] t = t"
  by (simp add: run_def)

lemma run_Cons: "run (r # rs) t = run rs (snd (serve r t))"
  by (simp add: run_def)

lemma run_snoc: "run (rs @ [r]) t = snd (serve r (run rs t))"
  by (simp add: run_def)

lemma logged_append: "logged (rs @ rs') = logged rs @ logged rs'"
  by (induction rs rule: logged.induct) simp_all

lemma serve_fields:
  "max_history (snd (serve r t)) = max_history t \<and>
   session_start_time (snd (serve r t)) = session_start_time t \<and>
   AgentTelemetry.more (snd (serve r t)) = AgentTelemetry.more t"
  by (cases r) (simp_all add: log_tool_call_def clear_def Let_def)

lemma run_fields:
  "max_history (run rs t) = max_history t \<and>
   session_start_time (run rs t) = session_start_time t \<and>
   AgentTelemetry.more (run rs t) = AgentTelemetry.more t"
  by (induction rs arbitrary: t) (simp_all add: run_Nil run_Cons serve_fields)

lemma serve_bounded:
  assumes "0 \<le> max_history t" "int (length (tool_calls t)) \<le> max_history t"
  shows "int (length (tool_calls (snd (serve r t)))) \<le> max_history t"
  using assms by (cases r) (auto simp: log_tool_call_def clear_def Let_def)

lemma run_bounded:
  assumes "0 \<le> max_history t" "int (length (tool_calls t)) \<le> max_history t"
  shows "int (length (tool_calls (run rs t))) \<le> max_history t"
  using assms
proof (induction rs arbitrary: t)
  case Nil
  then show ?case by (simp add: run_Nil)
next
  case (Cons r rs)
  have "int (length (tool_calls (run rs (snd (serve r t))))) \<le> max_history (snd (serve r t))"
    using Cons.prems serve_bounded [of t r] by (intro Cons.IH) (simp_all add: serve_fields)
  then show ?case by (simp add: run_Cons serve_fields)
qed

lemma evict_last:
  "tl (drop (length ys - M) ys @ [c]) = drop (Suc (length ys) - M) (ys @ [c])"
  if "M \<le> length ys"
proof (cases M)
  case 0
  then show ?thesis by simp
next
  case (Suc k)
  then have "drop (length ys - M) ys \<noteq> []" using that by simp
  then have "tl (drop (length ys - M) ys @ [c]) = tl (drop (length ys - M) ys) @ [c]"
    by simp
  also have "tl (drop (length ys - M) ys) = drop (Suc (length ys - M)) ys"
    by (simp add: drop_Suc tl_drop)
  finally have "tl (drop (length ys - M) ys @ [c]) = drop (Suc (length ys - M)) ys @ [c]" .
  moreover have "Suc (length ys - M) = Suc (length ys) - M" using that by simp
  ultimately show ?thesis using that Suc by simp
qed

lemma since_clear_snoc:
  "since_clear (rs @ [r]) = (if r = Clear then [] else since_clear rs @ [r])"
  by (simp add: since_clear_def)

lemma since_clear_append:
  "Clear \<notin> set rs2 \<Longrightarrow> since_clear (rs @ rs2) = since_clear rs @ rs2"
  by (induction rs2 rule: rev_induct) (auto simp add: since_clear_snoc simp flip: append_assoc)

lemma since_clear_no_Clear: "Clear \<notin> set (since_clear rs)"
  unfolding since_clear_def by (auto dest: set_takeWhileD)

lemma logged_filter: "logged (filter is_Log rs) = logged rs"
  by (induction rs rule: logged.induct) simp_all

lemma run_retains:
  assumes "0 \<le> m"
  shows "tool_calls (run rs (init_telemetry m s)) =
         drop (length (logged (since_clear rs)) - nat m) (logged (since_clear rs))"
proof (induction rs rule: rev_induct)
  case Nil
  then show ?case by (simp add: run_Nil init_telemetry_def since_clear_def)
next
  case (snoc r rs)
  let ?t = "run rs (init_telemetry m s)"
  let ?L = "logged (since_clear rs)"
  have ih: "tool_calls ?t = drop (length ?L - nat m) ?L"
    using snoc by simp
  have mh: "max_history ?t = m" by (simp add: run_fields init_telemetry_def)
  show ?case
  proof (cases r)
    case (Log now name inp out ms ok err)
    let ?c = "\<lparr>timestamp = now, tool_name = name, tool_input = inp, tool_output = out,
      execution_time_ms = ms, success = ok, error_message = err\<rparr>"
    have l: "logged (since_clear (rs @ [r])) = ?L @ [?c]"
      using Log by (simp add: since_clear_snoc logged_append)
    show ?thesis
    proof (cases "nat m \<le> length ?L")
      case True
      then have "int (length (tool_calls ?t @ [?c])) > m" using ih assms by simp
      then have "tool_calls (run (rs @ [r]) (init_telemetry m s)) = tl (tool_calls ?t @ [?c])"
        using Log mh by (simp add: run_snoc log_tool_call_def Let_def)
      then show ?thesis using evict_last [OF True] ih l by simp
    next
      case False
      then have "\<not> int (length (tool_calls ?t @ [?c])) > m" using ih assms by simp
      then have "tool_calls (run (rs @ [r]) (init_telemetry m s)) = tool_calls ?t @ [?c]"
        using Log mh by (simp add: run_snoc log_tool_call_def Let_def)
      then show ?thesis using False ih l by simp
    qed
  next
    case Clear
    then show ?thesis by (simp add: run_snoc since_clear_snoc clear_def)
  qed (use ih in \<open>simp_all add: run_snoc since_clear_snoc logged_append\<close>)
qed

lemma is_Log_filter: "list_all is_Log (filter is_Log rs)"
  by (simp add: list_all_iff)

lemma since_clear_Logs: "list_all is_Log ls \<Longrightarrow> since_clear ls = ls"
  unfolding since_clear_def
  by (metis (mono_tags, lifting) is_Log.simps(2) list_all_iff rev_rev_ident set_rev takeWhile_eq_all_conv)

lemma length_logged: "list_all is_Log ls \<Longrightarrow> length (logged ls) = length ls"
  by (induction ls rule: logged.induct) simp_all

lemma logged_drop: "list_all is_Log ls \<Longrightarrow> logged (drop n ls) = drop n (logged ls)"
proof (induction ls arbitrary: n rule: logged.induct)
  case (2 now name inp out ms ok err rs)
  then show ?case by (cases n) simp_all
qed simp_all

lemma list_all_drop: "list_all P xs \<Longrightarrow> list_all P (drop n xs)"
  by (simp add: list_all_iff) (meson in_set_dropD)

text \<open>The collector is the one that the records it retains alone would have produced.\<close>

lemma run_retained:
  assumes "0 \<le> m"
  shows "run rs (init_telemetry m s) =
         run (drop (length (logged (since_clear rs)) - nat m) (filter is_Log (since_clear rs)))
           (init_telemetry m s)"
proof -
  let ?ls = "filter is_Log (since_clear rs)"
  let ?k = "length (logged (since_clear rs)) - nat m"
  have a: "list_all is_Log (drop ?k ?ls)" by (intro list_all_drop is_Log_filter)
  have "tool_calls (run (drop ?k ?ls) (init_telemetry m s)) =
        drop (length (logged (drop ?k ?ls)) - nat m) (logged (drop ?k ?ls))"
    using run_retains [OF assms, of "drop ?k ?ls" s] since_clear_Logs [OF a] by simp
  also have "logged (drop ?k ?ls) = drop ?k (logged (since_clear rs))"
    using logged_drop [OF is_Log_filter, of ?k "since_clear rs"] by (simp add: logged_filter)
  also have "drop (length (drop ?k (logged (since_clear rs))) - nat m)
               (drop ?k (logged (since_clear rs))) = drop ?k (logged (since_clear rs))"
    by simp
  finally have "tool_calls (run (drop ?k ?ls) (init_telemetry m s)) =
       tool_calls (run rs (init_telemetry m s))"
    using run_retains [OF assms, of rs s] by simp
  then show ?thesis
    by (intro AgentTelemetry.equality) (simp_all add: run_fields)
qed

text \<open>
  C2. The capacity is a maximum number of calls, so it is not negative. After any sequence
  of calls on a fresh collector the history is no longer than \<open>max_history\<close>.
  \<open>log_tool_call\<close> appends one record and, when the history was already full, drops the
  first record of the list. When \<open>max_history + N\<close> records have been logged since the last
  \<open>clear\<close> (or since the start), whatever queries came in between, the history holds
  exactly the last \<open>max_history\<close> of them and stays that long under further calls other
  than \<open>clear\<close>; the collector is the one that these records alone would have produced,
  so every query answers as if the \<open>N\<close> oldest had never been recorded.
\<close>

theorem bounded_history:
  assumes "0 \<le> m"
  shows "int (length (tool_calls (run rs (init_telemetry m s)))) \<le> m \<and>
         tool_calls (log_tool_call now name inp out ms ok err t) =
           (if int (length (tool_calls t)) < max_history t
            then tool_calls t @ logged [Log now name inp out ms ok err]
            else tl (tool_calls t @ logged [Log now name inp out ms ok err])) \<and>
         (length (logged (since_clear rs)) = nat m + N \<longrightarrow>
            length (tool_calls (run rs (init_telemetry m s))) = nat m \<and>
            tool_calls (run rs (init_telemetry m s)) = drop N (logged (since_clear rs)) \<and>
            run rs (init_telemetry m s) =
              run (drop N (filter is_Log (since_clear rs))) (init_telemetry m s) \<and>
            (\<forall>q. fst (serve q (run rs (init_telemetry m s))) =
                 fst (serve q (run (drop N (filter is_Log (since_clear rs)))
                                 (init_telemetry m s)))) \<and>
            (Clear \<notin> set rs2 \<longrightarrow>
               length (tool_calls (run (rs @ rs2) (init_telemetry m s))) = nat m))"
proof -
  have a: "int (length (tool_calls (run rs (init_telemetry m s)))) \<le> m"
    using assms run_bounded [of "init_telemetry m s" rs] by (simp add: init_telemetry_def)
  have b: "tool_calls (log_tool_call now name inp out ms ok err t) =
           (if int (length (tool_calls t)) < max_history t
            then tool_calls t @ logged [Log now name inp out ms ok err]
            else tl (tool_calls t @ logged [Log now name inp out ms ok err]))"
    by (auto simp: log_tool_call_def Let_def)
  have c: "length (tool_calls (run rs (init_telemetry m s))) = nat m \<and>
            tool_calls (run rs (init_telemetry m s)) = drop N (logged (since_clear rs)) \<and>
            run rs (init_telemetry m s) =
              run (drop N (filter is_Log (since_clear rs))) (init_telemetry m s) \<and>
            (\<forall>q. fst (serve q (run rs (init_telemetry m s))) =
                 fst (serve q (run (drop N (filter is_Log (since_clear rs)))
                                 (init_telemetry m s)))) \<and>
            (Clear \<notin> set rs2 \<longrightarrow>
               length (tool_calls (run (rs @ rs2) (init_telemetry m s))) = nat m)"
    if h: "length (logged (since_clear rs)) = nat m + N"
  proof -
    have n: "length (logged (since_clear rs)) - nat m = N" using h by simp
    have k: "tool_calls (run rs (init_telemetry m s)) = drop N (logged (since_clear rs))"
      using run_retains [OF assms, of rs s] n by simp
    have e: "run rs (init_telemetry m s) =
             run (drop N (filter is_Log (since_clear rs))) (init_telemetry m s)"
      using run_retained [OF assms, of rs s] n by simp
    have l: "length (drop N (logged (since_clear rs))) = nat m"
      using h by simp
    have f: "length (tool_calls (run (rs @ rs2) (init_telemetry m s))) = nat m"
      if "Clear \<notin> set rs2"
    proof -
      have "nat m \<le> length (logged (since_clear (rs @ rs2)))"
        using h that by (simp add: since_clear_append logged_append)
      then show ?thesis
        using run_retains [OF assms, of "rs @ rs2" s] by simp
    qed
    show ?thesis using k e l f by simp
  qed
  show ?thesis using a b c by blast
qed

theorem bounded_history_witness:
  "(0::int) \<le> 2 \<and> length (logged (since_clear seven_calls)) = nat 2 + 1 \<and>
   Clear \<notin> set [Summary 5, Log ''t'' ''tool_4'' () 4 1 True None :: (unit, nat) request] \<and>
   map tool_name (tool_calls (run seven_calls (init_telemetry 2 0))) =
     [''tool_2'', ''tool_3''] \<and>
   run seven_calls (init_telemetry 2 0) =
     run (drop 1 (filter is_Log (since_clear seven_calls))) (init_telemetry 2 0) \<and>
   length (tool_calls (run (seven_calls @ [Summary 5, Log ''t'' ''tool_4'' () 4 1 True None])
     (init_telemetry 2 0))) = nat 2"
proof -
  have h: "(0::int) \<le> 2" by simp
  have l: "length (logged (since_clear seven_calls)) = nat 2 + 1"
    by (simp add: seven_calls_def since_clear_def)
  have n: "Clear \<notin> set [Summary 5, Log ''t'' ''tool_4'' () 4 1 True None :: (unit, nat) request]"
    by simp
  have ke: "tool_calls (run seven_calls (init_telemetry 2 0)) =
          drop 1 (logged (since_clear seven_calls)) \<and>
        run seven_calls (init_telemetry 2 0) =
          run (drop 1 (filter is_Log (since_clear seven_calls))) (init_telemetry 2 0) \<and>
        length (tool_calls (run (seven_calls @ [Summary 5, Log ''t'' ''tool_4'' () 4 1 True None])
          (init_telemetry 2 0))) = nat 2"
    using l n bounded_history [OF h, of seven_calls 0 "''t''" "''x''" "()" 0 1 True None
        "init_telemetry 2 0" 1 "[Summary 5, Log ''t'' ''tool_4'' () 4 1 True None]"]
    by blast
  have m: "map tool_name (drop 1 (logged (since_clear seven_calls))) = [''tool_2'', ''tool_3'']"
    by (simp add: seven_calls_def since_clear_def)
  have "map tool_name (tool_calls (run seven_calls (init_telemetry 2 0))) =
     [''tool_2'', ''tool_3'']"
    using ke m by metis
  then show ?thesis using h l n ke by blast
qed

text \<open>
  A \<open>clear\<close> empties the history, also after the capacity has been exceeded: with capacity
  1, two records leave a history of length 1, and a \<open>clear\<close> after them leaves length 0.
\<close>

theorem bounded_history_counterexample:
  "length (tool_calls
      (run [Log ''t'' ''tool_0'' () () 1 True None, Log ''t'' ''tool_1'' () () 1 True None]
         (init_telemetry 1 0))) = 1 \<and>
   length (tool_calls
      (run [Log ''t'' ''tool_0'' () () 1 True None, Log ''t'' ''tool_1'' () () 1 True None, Clear]
         (init_telemetry 1 0))) \<noteq> 1"
  by (simp add: run_def log_tool_call_def init_telemetry_def clear_def)

subsection \<open>History and latest call\<close>

lemma slice_from_neg:
  assumes "1 \<le> k"
  shows "rev (slice_from xs (- k)) = take (nat k) (rev xs)"
proof (cases "int (length xs) \<le> k")
  case True
  then show ?thesis using assms by (simp add: slice_from_def)
next
  case False
  then have "length xs - nat (int (length xs) - k) = nat k" using assms by linarith
  then show ?thesis using False assms by (simp add: slice_from_def rev_drop)
qed

lemma rev_slice_from: "rev (slice_from xs s) = take (length (slice_from xs s)) (rev xs)"
  by (simp add: slice_from_def rev_drop Let_def)

text \<open>
  C8. \<open>get_call_history\<close> without an argument is the whole history, newest first; with
  any argument it is an initial part of that list; it leaves the collector unchanged.
  When the history is not empty and \<open>k \<ge> 1\<close>, \<open>get_call_history(k)\<close> holds the \<open>k\<close> newest
  records and its first element is \<open>get_latest_call()\<close>.
\<close>

theorem history_latest:
  "get_call_history t None = rev (tool_calls t) \<and>
   (\<exists>j. get_call_history t n = take j (rev (tool_calls t))) \<and>
   snd (serve (History n) t) = t \<and>
   (tool_calls t \<noteq> [] \<and> 1 \<le> k \<longrightarrow>
      get_call_history t (Some k) = take (nat k) (rev (tool_calls t)) \<and>
      get_call_history t (Some k) \<noteq> [] \<and>
      get_latest_call t = Some (hd (get_call_history t (Some k))))"
proof -
  have a: "\<exists>j. get_call_history t n = take j (rev (tool_calls t))"
  proof (cases n)
    case None
    then have "get_call_history t n = take (length (tool_calls t)) (rev (tool_calls t))" by simp
    then show ?thesis ..
  next
    case (Some s)
    then show ?thesis using rev_slice_from [of "tool_calls t" "- s"] by auto
  qed
  have b: "get_call_history t (Some k) = take (nat k) (rev (tool_calls t))" if "1 \<le> k"
    using that by (simp add: slice_from_neg)
  have c: "take (nat k) (rev (tool_calls t)) \<noteq> [] \<and>
           hd (take (nat k) (rev (tool_calls t))) = last (tool_calls t)"
    if "1 \<le> k" "tool_calls t \<noteq> []"
  proof -
    from that obtain j where j: "nat k = Suc j" by (cases "nat k") auto
    from that obtain y ys where ys: "rev (tool_calls t) = y # ys" by (cases "rev (tool_calls t)") auto
    then have "last (tool_calls t) = y" using that(2) by (metis hd_rev list.sel(1))
    then show ?thesis using j ys by simp
  qed
  show ?thesis using a b c by (simp add: get_latest_call_def)
qed

theorem history_latest_witness:
  "tool_calls (run five_calls (init_telemetry 10 0)) \<noteq> [] \<and> (1::int) \<le> 2 \<and>
   map tool_name (get_call_history (run five_calls (init_telemetry 10 0)) (Some 2)) =
     [''tool_4'', ''tool_3''] \<and>
   map_option tool_name (get_latest_call (run five_calls (init_telemetry 10 0))) =
     Some ''tool_4''"
  using history_latest [of "run five_calls (init_telemetry 10 0)" "Some 2" 2]
  by (simp add: five_calls_def run_def init_telemetry_def log_tool_call_def)

subsection \<open>Success rates\<close>

lemma map_of_stat_call:
  "map_of (stat_call c acc) n =
     (if tool_name c = n
      then Some (fst (case map_of acc n of None \<Rightarrow> (0, 0) | Some st \<Rightarrow> st) + 1,
                 snd (case map_of acc n of None \<Rightarrow> (0, 0) | Some st \<Rightarrow> st) +
                   (if success c then 1 else 0))
      else map_of acc n)"
  by (simp add: stat_call_def Let_def update_conv')

lemma map_of_fold_stat_call:
  "map_of (fold stat_call cs acc) n =
     (if n \<in> tool_name ` set cs \<or> map_of acc n \<noteq> None
      then Some (fst (case map_of acc n of None \<Rightarrow> (0, 0) | Some st \<Rightarrow> st) +
                   length (filter (\<lambda>c. tool_name c = n) cs),
                 snd (case map_of acc n of None \<Rightarrow> (0, 0) | Some st \<Rightarrow> st) +
                   length (filter (\<lambda>c. tool_name c = n \<and> success c) cs))
      else None)"
proof (induction cs arbitrary: acc)
  case Nil
  then show ?case by (cases "map_of acc n") auto
next
  case (Cons c cs)
  show ?case
    by (cases "map_of acc n") (auto simp: Cons.IH map_of_stat_call)
qed

lemma distinct_stat_call: "distinct (map fst acc) \<Longrightarrow> distinct (map fst (stat_call c acc))"
  by (simp add: stat_call_def Let_def distinct_update)

lemma distinct_fold_stat_call:
  "distinct (map fst acc) \<Longrightarrow> distinct (map fst (fold stat_call cs acc))"
  by (induction cs arbitrary: acc) (simp_all add: distinct_stat_call)

text \<open>
  C7. \<open>get_tool_success_rate\<close> maps a tool with a call in the history to its successful
  calls over all its calls there, and has no entry for any other tool.
\<close>

theorem success_rate_by_tool:
  "map_of (get_tool_success_rate t) name =
     (if name \<in> tool_name ` set (tool_calls t)
      then Some (of_nat (length (filter (\<lambda>c. tool_name c = name \<and> success c) (tool_calls t))) /
                 of_nat (length (filter (\<lambda>c. tool_name c = name) (tool_calls t))))
      else None)"
proof -
  let ?stats = "fold stat_call (tool_calls t) []"
  have d: "distinct (map fst (map (\<lambda>p. (fst p, rate_of (snd p))) ?stats))"
    using distinct_fold_stat_call [of "[]" "tool_calls t"] by (simp add: comp_def)
  have "map_of (get_tool_success_rate t) name =
        map_option rate_of (map_of ?stats name)"
    unfolding get_tool_success_rate_def map_of_py_dict [OF d]
    by (simp add: map_of_map_snd)
  moreover have "length (filter (\<lambda>c. tool_name c = name) (tool_calls t)) > 0"
    if "name \<in> tool_name ` set (tool_calls t)"
    using that by (auto simp: length_greater_0_conv filter_empty_conv)
  ultimately show ?thesis
    by (auto simp: map_of_fold_stat_call rate_of_def)
qed

theorem success_rate_by_tool_witness:
  "map_of (get_tool_success_rate
      (run (five_calls @ [Log ''t'' ''tool_4'' () 0 1 False None]) (init_telemetry 3 0)))
      ''tool_4'' = Some (1 / 2) \<and>
   map_of (get_tool_success_rate
      (run (five_calls @ [Log ''t'' ''tool_4'' () 0 1 False None]) (init_telemetry 3 0)))
      ''tool_0'' = None"
  using
    success_rate_by_tool [of "run (five_calls @ [Log ''t'' ''tool_4'' () 0 1 False None])
        (init_telemetry 3 0)" "''tool_4''"]
    success_rate_by_tool [of "run (five_calls @ [Log ''t'' ''tool_4'' () 0 1 False None])
        (init_telemetry 3 0)" "''tool_0''"]
  by (simp add: five_calls_def run_def init_telemetry_def log_tool_call_def)

section \<open>Properties of the instrumentation adapter\<close>




end
